theory Spec2Isabelle
  imports
    Complex_Main
    "HOL-Library.Char_ord"
    "HOL-Library.List_Lexorder"
    "HOL-Library.Product_Lexorder"
    "HOL-Library.Option_ord"
begin

section \<open>Values, errors and tables\<close>

text \<open>
  The script \<^verbatim>\<open>create_visualizations.py\<close> reads three CSV tables with pandas, reshapes
  them and draws four figures. The embedding keeps the reshaping exact and treats a drawn
  figure as the data handed to the plotting call.

  A pandas float is modelled as an exact rational or \<open>NaN\<close> (\<open>None\<close>); rounding of
  binary floating point is outside the model, and a value beyond the largest finite double
  (\<open>float_max\<close> below) stands for an infinite float. A cell as \<^verbatim>\<open>read_csv\<close> delivers it is a
  number, a string token (a column that holds any non-numeric token has dtype object, and
  then all its tokens are strings) or missing.
\<close>

type_synonym num = "rat option"

datatype cell = Num rat | Str string | NA

datatype error =
  FileNotFoundError | FileExistsError | KeyError | ValueError | NameError
  | OutOfBoundsDatetime

datatype errors_mode = Raise | Coerce

datatype timestamp = Timestamp int int int

record weather_row =
  city :: string
  month :: int
  avg_temp :: num
  avg_humidity :: num
  precip :: cell

record minn_row =
  site :: string
  year :: int
  mo :: int
  m_precip :: num

text \<open>
  The Minnesota frame gains a \<^verbatim>\<open>date\<close> column when the renderer assigns it; the wide
  anomaly frame has its first column \<^verbatim>\<open>Year\<close> and then named columns in file order.
\<close>

record minn_frame =
  rows :: "minn_row list"
  date :: "timestamp list option"

record global_frame =
  Year :: "int list"
  cols :: "(string \<times> cell list) list"

text \<open>A labelled matrix: what \<^verbatim>\<open>DataFrame.pivot\<close> returns.\<close>

record ('i, 'c, 'v) matrix =
  index :: "'i list"
  columns :: "'c list"
  vals :: "'v list list"

record point =
  px :: rat
  py :: rat
  hue :: string
  psize :: rat

datatype figure =
  WeatherHeatmap "(string, int, num) matrix"
  | Scatter "point list" "(rat \<times> rat) list"
  | GlobalHeatmap "(int, int option, cell) matrix"
  | Line "(string \<times> timestamp \<times> num) list"

datatype obj =
  WeatherDF "weather_row list"
  | GlobalDF global_frame
  | MinnDF minn_frame

text \<open>
  The world: the objects the script's variables refer to (a store, so that copying and
  in-place assignment differ), the directories, the CSV files as \<^verbatim>\<open>read_csv\<close> parses
  them, and the images written.
\<close>

record world =
  heap :: "nat \<rightharpoonup> obj"
  nxt :: nat
  dirs :: "string set"
  csvs :: "string \<rightharpoonup> obj"
  pngs :: "string \<rightharpoonup> figure"

definition alloc :: "obj \<Rightarrow> world \<Rightarrow> nat \<times> world" where
  "alloc ob w = (nxt w, w\<lparr>heap := (heap w)(nxt w \<mapsto> ob), nxt := Suc (nxt w)\<rparr>)"

section \<open>Paths and files\<close>

definition is_sep :: "char \<Rightarrow> bool" where
  "is_sep ch = (ch = CHR ''/'')"

text \<open>\<^verbatim>\<open>posixpath.join\<close> of two components.\<close>

definition os_path_join :: "string \<Rightarrow> string \<Rightarrow> string" where
  "os_path_join a b =
     (if b \<noteq> [] \<and> is_sep (hd b) then b
      else if a = [] \<or> is_sep (last a) then a @ b
      else a @ ''/'' @ b)"

definition rstrip_sep :: "string \<Rightarrow> string" where
  "rstrip_sep s = rev (dropWhile is_sep (rev s))"

text \<open>
  A directory name without its trailing separators, unless it is made of separators only
  (the root): the form in which \<^verbatim>\<open>posixpath.dirname\<close> returns a head, and the key
  under which a directory is recorded.
\<close>

definition strip_head :: "string \<Rightarrow> string" where
  "strip_head h = (if h \<noteq> [] \<and> \<not> list_all is_sep h then rstrip_sep h else h)"

definition os_path_dirname :: "string \<Rightarrow> string" where
  "os_path_dirname p = strip_head (rev (dropWhile (\<lambda>ch. \<not> is_sep ch) (rev p)))"



text \<open>
  \<^verbatim>\<open>plt.savefig(fname)\<close>: the image is written into an existing directory (the empty
  head is the current directory).
\<close>

definition savefig :: "string \<Rightarrow> figure \<Rightarrow> world \<Rightarrow> error + (string \<times> world)" where
  "savefig fname fig w =
     (if os_path_dirname fname = [] \<or> os_path_dirname fname \<in> dirs w
      then Inr (fname, w\<lparr>pngs := (pngs w)(fname \<mapsto> fig)\<rparr>)
      else Inl FileNotFoundError)"

section \<open>Pandas operations\<close>

fun present :: "'a option list \<Rightarrow> 'a list" where
  "present [] = []"
| "present (None # xs) = present xs"
| "present (Some x # xs) = x # present xs"

text \<open>\<^verbatim>\<open>Series.mean()\<close> skips \<open>NaN\<close>; a group without a present value has mean \<open>NaN\<close>.\<close>

definition mean :: "num list \<Rightarrow> num" where
  "mean xs =
     (let ys = present xs
      in if ys = [] then None else Some (sum_list ys / of_nat (length ys)))"

text \<open>
  \<^verbatim>\<open>df.groupby(["city", "month"])["avg_temp"].mean().reset_index()\<close>: one row per
  distinct key, keys in sorted order.
\<close>

definition monthly_avg :: "weather_row list \<Rightarrow> (string \<times> int \<times> num) list" where
  "monthly_avg df =
     map (\<lambda>(c, m). (c, m, mean (map avg_temp (filter (\<lambda>r. city r = c \<and> month r = m) df))))
       (sort (remdups (map (\<lambda>r. (city r, month r)) df)))"

text \<open>
  \<^verbatim>\<open>DataFrame.pivot(index, columns, values)\<close> of a long table of (index, column, value)
  rows: a repeated (index, column) pair raises \<^verbatim>\<open>ValueError\<close>; the labels come out
  sorted; a pair with no row gives \<open>NaN\<close>.
\<close>

definition pivot ::
  "'v \<Rightarrow> ('i::linorder \<times> 'c::linorder \<times> 'v) list \<Rightarrow> error + ('i, 'c, 'v) matrix" where
  "pivot nan long =
     (let keyed = map (\<lambda>(i, c, v). ((i, c), v)) long
      in if \<not> distinct (map fst keyed) then Inl ValueError
         else
           let idx = sort (remdups (map (\<lambda>(i, c, v). i) long));
               cls = sort (remdups (map (\<lambda>(i, c, v). c) long))
           in Inr \<lparr>index = idx, columns = cls,
                   vals = map (\<lambda>i. map (\<lambda>c. case map_of keyed (i, c) of
                                              None \<Rightarrow> nan | Some v \<Rightarrow> v) cls) idx\<rparr>)"

definition argsort :: "'a::linorder list \<Rightarrow> nat list" where
  "argsort xs = map snd (sort_key fst (zip xs [0..<length xs]))"

definition take_idx :: "'a list \<Rightarrow> nat list \<Rightarrow> 'a list" where
  "take_idx xs ns = map (\<lambda>n. xs ! n) ns"

text \<open>\<^verbatim>\<open>sort_index(axis=1)\<close> and \<^verbatim>\<open>sort_index()\<close>: labels sorted, cells moved along.\<close>

definition sort_index_cols :: "('i, 'c::linorder, 'v) matrix \<Rightarrow> ('i, 'c, 'v) matrix" where
  "sort_index_cols M =
     (let p = argsort (columns M)
      in M\<lparr>columns := take_idx (columns M) p,
           vals := map (\<lambda>row. take_idx row p) (vals M)\<rparr>)"

definition sort_index_rows :: "('i::linorder, 'c, 'v) matrix \<Rightarrow> ('i, 'c, 'v) matrix" where
  "sort_index_rows M =
     (let p = argsort (index M)
      in M\<lparr>index := take_idx (index M) p, vals := take_idx (vals M) p\<rparr>)"

definition index_of :: "'a list \<Rightarrow> 'a \<Rightarrow> nat" where
  "index_of xs x = length (takeWhile (\<lambda>y. y \<noteq> x) xs)"

text \<open>\<^verbatim>\<open>M.loc[i, c]\<close>: the cell under two labels, \<open>None\<close> when a label is absent.\<close>

definition loc :: "('i, 'c, 'v) matrix \<Rightarrow> 'i \<Rightarrow> 'c \<Rightarrow> 'v option" where
  "loc M i c =
     (if i \<in> set (index M) \<and> c \<in> set (columns M)
      then Some (vals M ! index_of (index M) i ! index_of (columns M) c)
      else None)"

section \<open>Numeric coercion\<close>

text \<open>
  \<^verbatim>\<open>pd.to_numeric(col, errors=...)\<close>. The grammar by which pandas reads a string token
  as a number is a parameter \<open>parse\<close> (\<open>None\<close>: the token is not a number; a token that
  pandas reads as an infinite float, such as \<^verbatim>\<open>inf\<close>, has a value beyond the largest
  finite double). A token that does not parse raises under \<^verbatim>\<open>errors="raise"\<close> and becomes \<open>NaN\<close> under
  \<^verbatim>\<open>errors="coerce"\<close>.
\<close>

definition to_numeric_cell :: "(string \<Rightarrow> rat option) \<Rightarrow> errors_mode \<Rightarrow> cell \<Rightarrow> error + num" where
  "to_numeric_cell parse mode c =
     (case c of
        Num x \<Rightarrow> Inr (Some x)
      | NA \<Rightarrow> Inr None
      | Str s \<Rightarrow>
          (case parse s of
             Some x \<Rightarrow> Inr (Some x)
           | None \<Rightarrow> (case mode of Raise \<Rightarrow> Inl ValueError | Coerce \<Rightarrow> Inr None)))"

fun to_numeric :: "(string \<Rightarrow> rat option) \<Rightarrow> errors_mode \<Rightarrow> cell list \<Rightarrow> error + num list" where
  "to_numeric parse mode [] = Inr []"
| "to_numeric parse mode (c # cs) =
     (case to_numeric_cell parse mode c of
        Inl e \<Rightarrow> Inl e
      | Inr v \<Rightarrow>
          (case to_numeric parse mode cs of
             Inl e \<Rightarrow> Inl e
           | Inr vs \<Rightarrow> Inr (v # vs)))"

definition fillna :: "rat \<Rightarrow> num list \<Rightarrow> rat list" where
  "fillna d col = map (\<lambda>v. case v of None \<Rightarrow> d | Some x \<Rightarrow> x) col"

definition cell_of_num :: "num \<Rightarrow> cell" where
  "cell_of_num v = (case v of None \<Rightarrow> NA | Some x \<Rightarrow> Num x)"

section \<open>The weather heatmap\<close>

text \<open>Lines 57 to 65: group, pivot, sort the month columns.\<close>

definition pivot_table :: "weather_row list \<Rightarrow> error + (string, int, num) matrix" where
  "pivot_table df =
     (case pivot None (monthly_avg df) of
        Inl e \<Rightarrow> Inl e
      | Inr pt \<Rightarrow> Inr (sort_index_cols pt))"

text \<open>
  \<^verbatim>\<open>sns.heatmap\<close> is called without colour limits and takes them from the data, which
  raises \<^verbatim>\<open>ValueError\<close> on a matrix without cells.
\<close>

definition plot_weather_heatmap :: "nat \<Rightarrow> string \<Rightarrow> world \<Rightarrow> error + (string \<times> world)" where
  "plot_weather_heatmap df outdir w =
     (case heap w df of
        Some (WeatherDF rs) \<Rightarrow>
          (case pivot_table rs of
             Inl e \<Rightarrow> Inl e
           | Inr pt \<Rightarrow>
               if index pt = [] \<or> columns pt = [] then Inl ValueError
               else savefig (os_path_join outdir ''weather_heatmap.png'') (WeatherHeatmap pt) w)
      | Some _ \<Rightarrow> Inl KeyError
      | None \<Rightarrow> Inl NameError)"

section \<open>The weather scatter plot\<close>

text \<open>
  \<^verbatim>\<open>Series.quantile(q)\<close> with linear interpolation between the two nearest order
  statistics; \<open>NaN\<close> on an empty series.
\<close>

definition quantile :: "rat list \<Rightarrow> rat \<Rightarrow> num" where
  "quantile xs q =
     (if xs = [] then None
      else
        let s = sort xs;
            pos = q * of_nat (length xs - 1);
            lo = nat \<lfloor>pos\<rfloor>;
            frac = pos - of_int \<lfloor>pos\<rfloor>
        in Some (if Suc lo < length xs then s ! lo + frac * (s ! Suc lo - s ! lo) else s ! lo))"

text \<open>
  Line 116. After \<^verbatim>\<open>fillna\<close> the column has no \<open>NaN\<close>, so \<^verbatim>\<open>notna().any()\<close> says
  that the column is not empty.
\<close>

definition max_precip :: "rat list \<Rightarrow> rat" where
  "max_precip col =
     (if col \<noteq> [] then (case quantile col (95 / 100) of Some v \<Rightarrow> v | None \<Rightarrow> 1) else 1)"

definition size_range :: "rat \<times> rat" where
  "size_range = (20, 300)"

text \<open>
  The marker sizes are seaborn's: \<^verbatim>\<open>scatterplot(size="precip", sizes=size_range)\<close> is
  called without \<^verbatim>\<open>size_norm\<close>, so the size variable is normalised by matplotlib's
  \<^verbatim>\<open>Normalize\<close> scaled to the least and greatest value of the column (clipped to
  \<open>[0, 1]\<close>; all zero when the two coincide) and mapped linearly onto the size range.
\<close>

definition size_norm :: "rat list \<Rightarrow> rat \<Rightarrow> rat" where
  "size_norm col v =
     (case col of
        [] \<Rightarrow> 0
      | x # xs \<Rightarrow>
          let vmin = fold min xs x; vmax = fold max xs x
          in if vmin = vmax then 0 else max 0 (min 1 ((v - vmin) / (vmax - vmin))))"

definition size_map :: "rat \<times> rat \<Rightarrow> rat list \<Rightarrow> rat \<Rightarrow> rat" where
  "size_map sizes col v = fst sizes + size_norm col v * (snd sizes - fst sizes)"

text \<open>
  The largest finite double. An exact value beyond it stands for the infinite float that
  a token (\<^verbatim>\<open>inf\<close>, \<^verbatim>\<open>1e400\<close>) or an overflowing operation gives.
\<close>

definition float_max :: rat where
  "float_max = (2 ^ 53 - 1) * 2 ^ 971"

text \<open>
  The normalisation divides by the difference of the greatest and the least value of the
  column. When a value is not finite or that difference overflows, marker sizes are not
  numbers, and drawing them (\<^verbatim>\<open>plt.savefig\<close>) raises \<^verbatim>\<open>ValueError\<close>.
\<close>

definition sizes_finite :: "rat list \<Rightarrow> bool" where
  "sizes_finite col =
     (case col of
        [] \<Rightarrow> True
      | x # xs \<Rightarrow>
          list_all (\<lambda>v. \<bar>v\<bar> \<le> float_max) col
          \<and> fold max xs x - fold min xs x \<le> float_max)"

text \<open>seaborn draws the rows whose coordinates are present (\<^verbatim>\<open>comp_data.dropna()\<close>).\<close>

definition scatter_points :: "weather_row list \<Rightarrow> rat list \<Rightarrow> point list" where
  "scatter_points rs col =
     concat (map (\<lambda>(r, v).
        case (avg_humidity r, avg_temp r) of
          (Some x, Some y) \<Rightarrow> [\<lparr>px = x, py = y, hue = city r, psize = size_map size_range col v\<rparr>]
        | _ \<Rightarrow> []) (zip rs col))"

definition linspace :: "rat \<Rightarrow> rat \<Rightarrow> nat \<Rightarrow> rat list" where
  "linspace start stop n =
     map (\<lambda>k. start + of_nat k * ((stop - start) / of_nat (n - 1))) [0..<n]"

text \<open>\<^verbatim>\<open>np.rint\<close>: to the nearest integer, a tie to the even one.\<close>

definition rint :: "rat \<Rightarrow> int" where
  "rint x =
     (let f = \<lfloor>x\<rfloor>; d = x - of_int f
      in if d < 1 / 2 then f else if 1 / 2 < d then f + 1 else if even f then f else f + 1)"

definition np_round :: "rat \<Rightarrow> nat \<Rightarrow> rat" where
  "np_round x decimals = of_int (rint (x * 10 ^ decimals)) / 10 ^ decimals"

definition np_unique :: "rat list \<Rightarrow> rat list" where
  "np_unique xs = sort (remdups xs)"

text \<open>Line 153.\<close>

definition ref_values :: "rat \<Rightarrow> rat list" where
  "ref_values mp = np_unique (map (\<lambda>x. np_round x 2) (linspace 0 mp 4))"

text \<open>
  \<^verbatim>\<open>np.interp(v, [x0, x1], [f0, f1])\<close> on two nodes: constant outside the nodes, the
  right value at the right node, linear between.
\<close>

definition np_interp :: "rat \<Rightarrow> rat \<times> rat \<Rightarrow> rat \<times> rat \<Rightarrow> rat" where
  "np_interp v xp fp =
     (if snd xp < v then snd fp
      else if v < fst xp then fst fp
      else if snd xp \<le> v then snd fp
      else if v = fst xp then fst fp
      else fst fp + (snd fp - fst fp) / (snd xp - fst xp) * (v - fst xp))"

text \<open>Lines 153 to 160: each reference value with the size of its legend marker.\<close>

definition size_handles :: "rat \<Rightarrow> (rat \<times> rat) list" where
  "size_handles mp = map (\<lambda>v. (v, np_interp v (0, mp) size_range)) (ref_values mp)"

text \<open>
  \<^verbatim>\<open>df.copy()\<close> allocates; \<^verbatim>\<open>df_plot["precip"] = ...\<close> assigns in place. An address
  without an object cannot arise in Python; the model answers it with an error.
\<close>

definition copy :: "nat \<Rightarrow> world \<Rightarrow> error + (nat \<times> world)" where
  "copy a w = (case heap w a of None \<Rightarrow> Inl NameError | Some ob \<Rightarrow> Inr (alloc ob w))"

definition set_precip :: "nat \<Rightarrow> rat list \<Rightarrow> world \<Rightarrow> error + world" where
  "set_precip a col w =
     (case heap w a of
        Some (WeatherDF rs) \<Rightarrow>
          Inr (w\<lparr>heap := (heap w)(a \<mapsto> WeatherDF (map (\<lambda>(r, v). r\<lparr>precip := Num v\<rparr>) (zip rs col)))\<rparr>)
      | Some _ \<Rightarrow> Inl KeyError
      | None \<Rightarrow> Inl NameError)"

text \<open>Line 113: the coerced and filled precipitation column.\<close>

definition precip_filled :: "(string \<Rightarrow> rat option) \<Rightarrow> weather_row list \<Rightarrow> error + rat list" where
  "precip_filled parse rs =
     (case to_numeric parse Coerce (map precip rs) of
        Inl e \<Rightarrow> Inl e
      | Inr col \<Rightarrow> Inr (fillna 0 col))"

definition plot_weather_scatter ::
  "(string \<Rightarrow> rat option) \<Rightarrow> nat \<Rightarrow> string \<Rightarrow> world \<Rightarrow> error + (string \<times> world)" where
  "plot_weather_scatter parse df outdir w =
     (case copy df w of
        Inl e \<Rightarrow> Inl e
      | Inr (df_plot, w1) \<Rightarrow>
          (case heap w1 df_plot of
             Some (WeatherDF rs) \<Rightarrow>
               (case precip_filled parse rs of
                  Inl e \<Rightarrow> Inl e
                | Inr col \<Rightarrow>
                    (case set_precip df_plot col w1 of
                       Inl e \<Rightarrow> Inl e
                     | Inr w2 \<Rightarrow>
                         if sizes_finite col
                         then savefig (os_path_join outdir ''weather_scatter.png'')
                                (Scatter (scatter_points rs col) (size_handles (max_precip col))) w2
                         else Inl ValueError))
           | Some _ \<Rightarrow> Inl KeyError
           | None \<Rightarrow> Inl NameError))"

section \<open>The global anomaly heatmap\<close>

definition months :: "string list" where
  "months = [''Jan'', ''Feb'', ''Mar'', ''Apr'', ''May'', ''Jun'', ''Jul'', ''Aug'', ''Sep'',
             ''Oct'', ''Nov'', ''Dec'']"

definition month_order :: "string \<rightharpoonup> int" where
  "month_order = map_of [(''Jan'', 1), (''Feb'', 2), (''Mar'', 3), (''Apr'', 4), (''May'', 5),
     (''Jun'', 6), (''Jul'', 7), (''Aug'', 8), (''Sep'', 9), (''Oct'', 10), (''Nov'', 11),
     (''Dec'', 12)]"

text \<open>
  \<^verbatim>\<open>df.melt(id_vars="Year", value_vars=...)\<close>: one block of (Year, Month, Anomaly) rows
  per value column, in the order of \<open>value_vars\<close>; a missing column raises \<^verbatim>\<open>KeyError\<close>.
\<close>

fun melt :: "global_frame \<Rightarrow> string list \<Rightarrow> error + (int \<times> string \<times> cell) list" where
  "melt df [] = Inr []"
| "melt df (v # vs) =
     (case map_of (cols df) v of
        None \<Rightarrow> Inl KeyError
      | Some col \<Rightarrow>
          (case melt df vs of
             Inl e \<Rightarrow> Inl e
           | Inr rest \<Rightarrow> Inr (map (\<lambda>(y, a). (y, v, a)) (zip (Year df) col) @ rest)))"

text \<open>
  Lines 192 to 202. \<^verbatim>\<open>Series.map(month_order)\<close> gives \<open>NaN\<close> (\<open>None\<close>) for a name that
  is not a key, so the column labels of the matrix are optional integers.
\<close>

definition heatmap_data :: "global_frame \<Rightarrow> error + (int, int option, cell) matrix" where
  "heatmap_data df =
     (case melt df months of
        Inl e \<Rightarrow> Inl e
      | Inr df_long \<Rightarrow>
          (case pivot NA (map (\<lambda>(y, m, a). (y, month_order m, a)) df_long) of
             Inl e \<Rightarrow> Inl e
           | Inr M \<Rightarrow> Inr (sort_index_rows M)))"

definition plot_global_temp_heatmap :: "nat \<Rightarrow> string \<Rightarrow> world \<Rightarrow> error + (string \<times> world)" where
  "plot_global_temp_heatmap df outdir w =
     (case heap w df of
        Some (GlobalDF g) \<Rightarrow>
          (case heatmap_data g of
             Inl e \<Rightarrow> Inl e
           | Inr M \<Rightarrow> savefig (os_path_join outdir ''global_temp_heatmap.png'') (GlobalHeatmap M) w)
      | Some _ \<Rightarrow> Inl KeyError
      | None \<Rightarrow> Inl NameError)"

section \<open>The Minnesota line chart\<close>

definition days_in_month :: "int \<Rightarrow> int \<Rightarrow> int" where
  "days_in_month y m =
     (if m = 2 then (if y mod 4 = 0 \<and> (y mod 100 \<noteq> 0 \<or> y mod 400 = 0) then 29 else 28)
      else if m = 4 \<or> m = 6 \<or> m = 9 \<or> m = 11 then 30 else 31)"

text \<open>
  \<^verbatim>\<open>pd.to_datetime\<close> of one (year, month, day) triple: a date that does not exist raises
  \<^verbatim>\<open>ValueError\<close>, one outside the range of a nanosecond timestamp (1677-09-22 to
  2262-04-11) raises \<^verbatim>\<open>OutOfBoundsDatetime\<close>.
\<close>

definition to_datetime :: "int \<times> int \<times> int \<Rightarrow> error + timestamp" where
  "to_datetime ymd =
     (case ymd of (y, m, d) \<Rightarrow>
        if m < 1 \<or> 12 < m \<or> d < 1 \<or> days_in_month y m < d then Inl ValueError
        else if ymd < (1677, 9, 22) \<or> (2262, 4, 11) < ymd then Inl OutOfBoundsDatetime
        else Inr (Timestamp y m d))"

fun to_datetime_all :: "(int \<times> int \<times> int) list \<Rightarrow> error + timestamp list" where
  "to_datetime_all [] = Inr []"
| "to_datetime_all (x # xs) =
     (case to_datetime x of
        Inl e \<Rightarrow> Inl e
      | Inr t \<Rightarrow>
          (case to_datetime_all xs of
             Inl e \<Rightarrow> Inl e
           | Inr ts \<Rightarrow> Inr (t # ts)))"

text \<open>Line 251: \<^verbatim>\<open>pd.to_datetime(dict(year=df["year"], month=df["mo"], day=1))\<close>.\<close>

definition date_column :: "minn_row list \<Rightarrow> error + timestamp list" where
  "date_column rs = to_datetime_all (map (\<lambda>r. (year r, mo r, 1)) rs)"

definition plot_minnesota_precip_line :: "nat \<Rightarrow> string \<Rightarrow> world \<Rightarrow> error + (string \<times> world)" where
  "plot_minnesota_precip_line df outdir w =
     (case copy df w of
        Inl e \<Rightarrow> Inl e
      | Inr (df_plot, w1) \<Rightarrow>
          (case heap w1 df_plot of
             Some (MinnDF fr) \<Rightarrow>
               (case date_column (rows fr) of
                  Inl e \<Rightarrow> Inl e
                | Inr ds \<Rightarrow>
                    savefig (os_path_join outdir ''minnesota_precip_line.png'')
                      (Line (map (\<lambda>(r, d). (site r, d, m_precip r)) (zip (rows fr) ds)))
                      (w1\<lparr>heap := (heap w1)(df_plot \<mapsto> MinnDF (fr\<lparr>date := Some ds\<rparr>))\<rparr>))
           | Some _ \<Rightarrow> Inl KeyError
           | None \<Rightarrow> Inl NameError))"

section \<open>The orchestrator\<close>

text \<open>\<^verbatim>\<open>DataFrame.replace(old, new)\<close>: a new frame; the integer \<^verbatim>\<open>Year\<close> column has no
  cell equal to a string.\<close>

definition replace_cells :: "cell \<Rightarrow> cell \<Rightarrow> global_frame \<Rightarrow> global_frame" where
  "replace_cells old new g =
     g\<lparr>cols := map (\<lambda>(k, col). (k, map (\<lambda>c. if c = old then new else c) col)) (cols g)\<rparr>"

text \<open>
  Lines 285 and 286: every column after the first is replaced by its numeric coercion.
\<close>

fun coerce_columns ::
  "(string \<Rightarrow> rat option) \<Rightarrow> (string \<times> cell list) list \<Rightarrow> error + (string \<times> cell list) list" where
  "coerce_columns parse [] = Inr []"
| "coerce_columns parse ((k, col) # rest) =
     (case to_numeric parse Coerce col of
        Inl e \<Rightarrow> Inl e
      | Inr vs \<Rightarrow>
          (case coerce_columns parse rest of
             Inl e \<Rightarrow> Inl e
           | Inr rest' \<Rightarrow> Inr ((k, map cell_of_num vs) # rest')))"

text \<open>
  Lines 284 to 286 on the frame just read: \<^verbatim>\<open>replace\<close> binds \<^verbatim>\<open>global_df\<close> to a
  new frame, whose columns the loop then assigns in place.
\<close>

definition preprocess_global ::
  "(string \<Rightarrow> rat option) \<Rightarrow> nat \<Rightarrow> world \<Rightarrow> error + (nat \<times> world)" where
  "preprocess_global parse a w =
     (case heap w a of
        Some (GlobalDF g) \<Rightarrow>
          (case alloc (GlobalDF (replace_cells (Str ''***'') NA g)) w of
             (global_df, w1) \<Rightarrow>
               (case coerce_columns parse (cols (replace_cells (Str ''***'') NA g)) of
                  Inl e \<Rightarrow> Inl e
                | Inr cs \<Rightarrow>
                    Inr (global_df,
                         w1\<lparr>heap := (heap w1)(global_df \<mapsto>
                               GlobalDF ((replace_cells (Str ''***'') NA g)\<lparr>cols := cs\<rparr>))\<rparr>)))
      | Some _ \<Rightarrow> Inl KeyError
      | None \<Rightarrow> Inl NameError)"


section \<open>Labelled matrices\<close>

lemma index_of_less: "x \<in> set xs \<Longrightarrow> index_of xs x < length xs"
  unfolding index_of_def
  by (induction xs) auto

lemma nth_index_of: "x \<in> set xs \<Longrightarrow> xs ! index_of xs x = x"
  unfolding index_of_def
  by (induction xs) auto

lemma argsort_sorted: "sorted xs \<Longrightarrow> argsort xs = [0..<length xs]"
proof -
  assume s: "sorted xs"
  have "map fst (zip xs [0..<length xs]) = xs" by simp
  with s have "sort_key fst (zip xs [0..<length xs]) = zip xs [0..<length xs]"
    by (simp add: sort_key_id_if_sorted)
  then show ?thesis by (simp add: argsort_def)
qed

lemma take_idx_all: "take_idx xs [0..<length xs] = xs"
  by (simp add: take_idx_def map_nth)

lemma sort_index_cols_sorted:
  assumes "sorted (columns M)" and "\<forall>row\<in>set (vals M). length row = length (columns M)"
  shows "sort_index_cols M = M"
proof -
  have "map (\<lambda>row. take_idx row [0..<length (columns M)]) (vals M) = vals M"
  proof (rule map_idI)
    fix row assume "row \<in> set (vals M)"
    with assms(2) have "length (columns M) = length row" by simp
    then show "take_idx row [0..<length (columns M)] = row"
      by (simp only: take_idx_all)
  qed
  then show ?thesis
    using assms(1) by (simp add: sort_index_cols_def argsort_sorted take_idx_all)
qed

lemma sort_index_rows_sorted:
  assumes "sorted (index M)" and "length (vals M) = length (index M)"
  shows "sort_index_rows M = M"
  using assms take_idx_all [of "vals M"]
  by (simp add: sort_index_rows_def argsort_sorted take_idx_all)

lemma pivot_keyed:
  assumes "distinct (map (\<lambda>(i, c, v). (i, c)) long)"
  shows "pivot nan long =
    Inr \<lparr>index = sort (remdups (map (\<lambda>(i, c, v). i) long)),
         columns = sort (remdups (map (\<lambda>(i, c, v). c) long)),
         vals = map (\<lambda>i. map (\<lambda>c. case map_of (map (\<lambda>(i, c, v). ((i, c), v)) long) (i, c) of
                                     None \<Rightarrow> nan | Some v \<Rightarrow> v)
                      (sort (remdups (map (\<lambda>(i, c, v). c) long))))
                 (sort (remdups (map (\<lambda>(i, c, v). i) long)))\<rparr>"
proof -
  have "fst \<circ> (\<lambda>(i, c, v). ((i, c), v)) = (\<lambda>(i::'a, c::'b, v::'c). (i, c))"
    by (rule ext) auto
  with assms show ?thesis
    unfolding pivot_def Let_def by simp
qed

lemma loc_grid:
  assumes "index M = idx" and "columns M = cls"
    and "vals M = map (\<lambda>i. map (f i) cls) idx"
  shows "loc M i c = (if i \<in> set idx \<and> c \<in> set cls then Some (f i c) else None)"
  using assms
  by (simp add: loc_def index_of_less nth_index_of)

section \<open>The city by month matrix\<close>

lemma mean_Nil: "mean [] = None"
  by (simp add: mean_def)

lemma present_map_Some: "present (map Some xs) = xs"
  by (induction xs) auto

lemma mean_map_Some:
  "mean (map Some xs) = (if xs = [] then None else Some (sum_list xs / of_nat (length xs)))"
  by (simp add: mean_def present_map_Some)

lemma monthly_avg_keys:
  "map (\<lambda>(i, c, v). (i, c)) (monthly_avg df) = sort (remdups (map (\<lambda>r. (city r, month r)) df))"
  unfolding monthly_avg_def by (simp add: case_prod_unfold comp_def)

lemma monthly_avg_index:
  "set (map (\<lambda>(i, c, v). i) (monthly_avg df)) = city ` set df"
  unfolding monthly_avg_def by (auto simp: case_prod_unfold comp_def image_iff)

lemma monthly_avg_columns:
  "set (map (\<lambda>(i, c, v). c) (monthly_avg df)) = month ` set df"
  unfolding monthly_avg_def by (auto simp: case_prod_unfold comp_def image_iff)

lemma monthly_avg_lookup:
  "(case map_of (map (\<lambda>(i, c, v). ((i, c), v)) (monthly_avg df)) (c, m) of
      None \<Rightarrow> None | Some v \<Rightarrow> v)
   = mean (map avg_temp (filter (\<lambda>r. city r = c \<and> month r = m) df))"
proof -
  let ?g = "\<lambda>k. mean (map avg_temp (filter (\<lambda>r. city r = fst k \<and> month r = snd k) df))"
  let ?ks = "sort (remdups (map (\<lambda>r. (city r, month r)) df))"
  have eq: "map (\<lambda>(i, c, v). ((i, c), v)) (monthly_avg df) = map (\<lambda>k. (k, ?g k)) ?ks"
    unfolding monthly_avg_def by (simp add: case_prod_unfold comp_def)
  show ?thesis
  proof (cases "(c, m) \<in> set ?ks")
    case True
    then show ?thesis
      by (simp only: eq map_of_map_restrict) (simp add: restrict_map_def)
  next
    case False
    then have "filter (\<lambda>r. city r = c \<and> month r = m) df = []"
      by (auto simp: filter_empty_conv image_iff)
    with False show ?thesis
      by (simp only: eq map_of_map_restrict) (simp add: restrict_map_def mean_Nil)
  qed
qed

lemma pivot_table_eq:
  "pivot_table df =
     Inr \<lparr>index = sort (remdups (map (\<lambda>(i, c, v). i) (monthly_avg df))),
          columns = sort (remdups (map (\<lambda>(i, c, v). c) (monthly_avg df))),
          vals = map (\<lambda>i. map (\<lambda>c. mean (map avg_temp (filter (\<lambda>r. city r = i \<and> month r = c) df)))
                       (sort (remdups (map (\<lambda>(i, c, v). c) (monthly_avg df)))))
                  (sort (remdups (map (\<lambda>(i, c, v). i) (monthly_avg df))))\<rparr>"
proof -
  have d: "distinct (map (\<lambda>(i, c, v). (i, c)) (monthly_avg df))"
    by (simp only: monthly_avg_keys) simp
  show ?thesis
    unfolding pivot_table_def
    by (simp only: pivot_keyed [OF d] monthly_avg_lookup sum.case)
       (rule arg_cong [where f = Inr], rule sort_index_cols_sorted, simp_all)
qed

text \<open>
  Claim C1. For every weather table the matrix of \<^verbatim>\<open>plot_weather_heatmap\<close> exists and
  has one row per distinct city and one column per distinct month of the table, both in
  ascending order. The entry under city \<open>c\<close> and month \<open>m\<close> is the mean of the
  \<^verbatim>\<open>avg_temp\<close> values of exactly the rows with that pair: when those values are the
  numbers \<open>xs\<close>, the entry is their sum divided by their count, and it is blank when there
  is no such row.
\<close>

theorem weather_heatmap_matrix:
  "\<exists>M. pivot_table df = Inr M
     \<and> sorted (index M) \<and> distinct (index M) \<and> set (index M) = city ` set df
     \<and> sorted (columns M) \<and> distinct (columns M) \<and> set (columns M) = month ` set df
     \<and> length (vals M) = length (index M)
     \<and> (\<forall>row \<in> set (vals M). length row = length (columns M))
     \<and> (\<forall>c m. loc M c m =
           (if c \<in> city ` set df \<and> m \<in> month ` set df
            then Some (mean (map avg_temp (filter (\<lambda>r. city r = c \<and> month r = m) df)))
            else None))
     \<and> (\<forall>c \<in> city ` set df. \<forall>m \<in> month ` set df. \<forall>xs.
           map avg_temp (filter (\<lambda>r. city r = c \<and> month r = m) df) = map Some xs \<longrightarrow>
           loc M c m = Some (if xs = [] then None else Some (sum_list xs / of_nat (length xs))))"
proof -
  let ?idx = "sort (remdups (map (\<lambda>(i, c, v). i) (monthly_avg df)))"
  let ?cls = "sort (remdups (map (\<lambda>(i, c, v). c) (monthly_avg df)))"
  let ?f = "\<lambda>i c. mean (map avg_temp (filter (\<lambda>r. city r = i \<and> month r = c) df))"
  let ?M = "\<lparr>index = ?idx, columns = ?cls, vals = map (\<lambda>i. map (?f i) ?cls) ?idx\<rparr>"
  have si: "set ?idx = city ` set df"
    using monthly_avg_index [of df] by simp
  have sc: "set ?cls = month ` set df"
    using monthly_avg_columns [of df] by simp
  have l: "\<And>c m. loc ?M c m =
      (if c \<in> city ` set df \<and> m \<in> month ` set df then Some (?f c m) else None)"
    using loc_grid [of ?M ?idx ?cls ?f] by (simp only: si sc) simp
  have "pivot_table df = Inr ?M" by (rule pivot_table_eq)
  moreover have "sorted (index ?M)" "distinct (index ?M)" "sorted (columns ?M)" "distinct (columns ?M)"
    "length (vals ?M) = length (index ?M)" "\<forall>row \<in> set (vals ?M). length row = length (columns ?M)"
    by simp_all
  moreover have "set (index ?M) = city ` set df" "set (columns ?M) = month ` set df"
    using si sc by simp_all
  moreover have "\<forall>c \<in> city ` set df. \<forall>m \<in> month ` set df. \<forall>xs.
           map avg_temp (filter (\<lambda>r. city r = c \<and> month r = m) df) = map Some xs \<longrightarrow>
           loc ?M c m = Some (if xs = [] then None else Some (sum_list xs / of_nat (length xs)))"
    by (simp only: l) (simp add: mean_map_Some)
  ultimately show ?thesis using l by blast
qed

theorem weather_heatmap_matrix_witness:
  "\<exists>M. pivot_table
         [\<lparr>city = ''B'', month = 2, avg_temp = Some 10, avg_humidity = Some 50, precip = Num 1\<rparr>,
          \<lparr>city = ''A'', month = 2, avg_temp = Some 20, avg_humidity = Some 60, precip = NA\<rparr>,
          \<lparr>city = ''B'', month = 2, avg_temp = Some 15, avg_humidity = Some 70, precip = Num 0\<rparr>,
          \<lparr>city = ''B'', month = 1, avg_temp = Some 5, avg_humidity = Some 80, precip = Num 2\<rparr>]
         = Inr M
     \<and> set (index M) = {''A'', ''B''} \<and> set (columns M) = {1, 2}
     \<and> loc M ''B'' 2 = Some (Some (25 / 2))
     \<and> loc M ''A'' 2 = Some (Some 20)
     \<and> loc M ''A'' 1 = Some None"
proof -
  let ?df = "[\<lparr>city = ''B'', month = 2, avg_temp = Some 10, avg_humidity = Some 50, precip = Num 1\<rparr>,
          \<lparr>city = ''A'', month = 2, avg_temp = Some 20, avg_humidity = Some 60, precip = NA\<rparr>,
          \<lparr>city = ''B'', month = 2, avg_temp = Some 15, avg_humidity = Some 70, precip = Num 0\<rparr>,
          \<lparr>city = ''B'', month = 1, avg_temp = Some 5, avg_humidity = Some 80, precip = Num 2\<rparr>]"
  obtain M where M: "pivot_table ?df = Inr M"
    and i: "set (index M) = city ` set ?df" and c: "set (columns M) = month ` set ?df"
    and cells: "\<forall>c \<in> city ` set ?df. \<forall>m \<in> month ` set ?df. \<forall>xs.
           map avg_temp (filter (\<lambda>r. city r = c \<and> month r = m) ?df) = map Some xs \<longrightarrow>
           loc M c m = Some (if xs = [] then None else Some (sum_list xs / of_nat (length xs)))"
    using weather_heatmap_matrix [of ?df] by blast
  have "loc M ''B'' 2 = Some (Some (25 / 2))"
    using cells [rule_format, of "''B''" 2 "[10, 15]"] by simp
  moreover have "loc M ''A'' 2 = Some (Some 20)"
    using cells [rule_format, of "''A''" 2 "[20]"] by simp
  moreover have "loc M ''A'' 1 = Some None"
    using cells [rule_format, of "''A''" 1 "[]"] by simp
  moreover have "set (index M) = {''A'', ''B''}" using i by auto
  moreover have "set (columns M) = {1, 2}" using c by auto
  ultimately show ?thesis using M by blast
qed

text \<open>
  Claim C8. Whatever the table holds, also many rows for one (city, month) pair, the
  grouped table has each pair once, so the pivot of \<^verbatim>\<open>plot_weather_heatmap\<close> returns a
  matrix: its duplicate-key error cannot be reached.
\<close>

theorem pivot_after_groupby_no_duplicates:
  "distinct (map (\<lambda>(c, m, v). (c, m)) (monthly_avg df))
   \<and> (\<exists>M. pivot None (monthly_avg df) = Inr M)
   \<and> (\<exists>M. pivot_table df = Inr M)"
proof -
  have d: "distinct (map (\<lambda>(c, m, v). (c, m)) (monthly_avg df))"
    by (simp only: monthly_avg_keys) simp
  from pivot_keyed [OF d] have "\<exists>M. pivot None (monthly_avg df) = Inr M" by blast
  moreover have "\<exists>M. pivot_table df = Inr M"
    using pivot_table_eq [of df] by blast
  ultimately show ?thesis using d by blast
qed

section \<open>Coercion of the precipitation column\<close>

lemma to_numeric_coerce:
  "to_numeric parse Coerce cs =
     Inr (map (\<lambda>c. case c of Num x \<Rightarrow> Some x | Str s \<Rightarrow> parse s | NA \<Rightarrow> None) cs)"
  by (induction cs) (auto simp: to_numeric_cell_def split: cell.splits option.splits)

lemma hue_points_aux:
  "length col = length rs \<Longrightarrow>
   map hue (concat (map (\<lambda>(r, v).
        case (avg_humidity r, avg_temp r) of
          (Some x, Some y) \<Rightarrow> [\<lparr>px = x, py = y, hue = city r, psize = sz v\<rparr>]
        | _ \<Rightarrow> []) (zip rs col))) =
     map city (filter (\<lambda>r. avg_humidity r \<noteq> None \<and> avg_temp r \<noteq> None) rs)"
  by (induction rs col rule: list_induct2') (auto split: option.splits)

lemma length_scatter_points:
  "length col = length rs \<Longrightarrow>
   map hue (scatter_points rs col) =
     map city (filter (\<lambda>r. avg_humidity r \<noteq> None \<and> avg_temp r \<noteq> None) rs)"
  unfolding scatter_points_def by (rule hue_points_aux)

text \<open>
  Claim C5. In \<^verbatim>\<open>plot_weather_scatter\<close> the coercion never fails; a precipitation cell
  that is missing or a token that does not parse as a number becomes 0, a number (or a
  token that parses) keeps its value, and the column keeps one entry per row. The points
  drawn are the rows whose two coordinates are present, whatever their precipitation.
\<close>

theorem precip_coerced_filled:
  "precip_filled parse rs =
     Inr (map (\<lambda>r. case precip r of
                     Num x \<Rightarrow> x
                   | Str s \<Rightarrow> (case parse s of None \<Rightarrow> 0 | Some x \<Rightarrow> x)
                   | NA \<Rightarrow> 0) rs)
   \<and> (\<exists>col. precip_filled parse rs = Inr col \<and> length col = length rs
        \<and> map hue (scatter_points rs col) =
            map city (filter (\<lambda>r. avg_humidity r \<noteq> None \<and> avg_temp r \<noteq> None) rs))"
proof -
  let ?col = "map (\<lambda>r. case precip r of
                     Num x \<Rightarrow> x
                   | Str s \<Rightarrow> (case parse s of None \<Rightarrow> 0 | Some x \<Rightarrow> x)
                   | NA \<Rightarrow> 0) rs"
  have a: "precip_filled parse rs = Inr ?col"
    by (simp add: precip_filled_def to_numeric_coerce fillna_def comp_def split: cell.splits)
  have "length ?col = length rs" by simp
  from length_scatter_points [OF this] a show ?thesis by simp
qed

section \<open>Coercion of the anomaly table\<close>

lemma coerce_columns_total:
  "coerce_columns parse cs =
     Inr (map (\<lambda>(k, col). (k, map (\<lambda>c. case c of
                                         Num x \<Rightarrow> Num x
                                       | Str s \<Rightarrow> (case parse s of None \<Rightarrow> NA | Some x \<Rightarrow> Num x)
                                       | NA \<Rightarrow> NA) col)) cs)"
  by (induction cs)
     (auto simp: to_numeric_coerce cell_of_num_def split: cell.splits option.splits)

text \<open>
  Claim C7. The preprocessing of the anomaly table in \<^verbatim>\<open>main\<close> always returns: in
  every column after \<^verbatim>\<open>Year\<close> a number stays, and the sentinel \<^verbatim>\<open>***\<close>, a missing
  cell and every token that does not parse as a number become missing. No token raises.
\<close>

theorem preprocess_global_absorbs:
  assumes "heap w a = Some (GlobalDF g)"
  shows "\<exists>w'. preprocess_global parse a w = Inr (nxt w, w')
     \<and> heap w' (nxt w) = Some (GlobalDF (g\<lparr>cols :=
          map (\<lambda>(k, col). (k, map (\<lambda>c. case c of
                  Num x \<Rightarrow> Num x
                | Str s \<Rightarrow> (if s = ''***'' then NA
                            else case parse s of None \<Rightarrow> NA | Some x \<Rightarrow> Num x)
                | NA \<Rightarrow> NA) col)) (cols g)\<rparr>))"
proof -
  have "map ((\<lambda>(k, col). (k, map (\<lambda>c. case c of
                                         Num x \<Rightarrow> Num x
                                       | Str s \<Rightarrow> (case parse s of None \<Rightarrow> NA | Some x \<Rightarrow> Num x)
                                       | NA \<Rightarrow> NA) col)) \<circ>
        (\<lambda>(k, col). (k, map (\<lambda>c. if c = Str ''***'' then NA else c) col))) (cols g)
      = map (\<lambda>(k, col). (k, map (\<lambda>c. case c of
                  Num x \<Rightarrow> Num x
                | Str s \<Rightarrow> (if s = ''***'' then NA
                            else case parse s of None \<Rightarrow> NA | Some x \<Rightarrow> Num x)
                | NA \<Rightarrow> NA) col)) (cols g)"
    by (rule map_cong) (auto split: cell.splits)
  then show ?thesis
    using assms
    by (simp add: preprocess_global_def alloc_def replace_cells_def coerce_columns_total)
qed

theorem preprocess_global_absorbs_witness:
  "\<exists>w'. preprocess_global (\<lambda>s. if s = ''1.5'' then Some (3 / 2) else None) 0
       \<lparr>heap = [0 \<mapsto> GlobalDF \<lparr>Year = [1880, 1881],
                 cols = [(''Jan'', [Str ''***'', Str ''1.5'']), (''Feb'', [Str ''abc'', Num 2])]\<rparr>],
        nxt = 1, dirs = {}, csvs = Map.empty, pngs = Map.empty\<rparr> = Inr (1, w')
     \<and> heap w' 1 = Some (GlobalDF \<lparr>Year = [1880, 1881],
                 cols = [(''Jan'', [NA, Num (3 / 2)]), (''Feb'', [NA, Num 2])]\<rparr>)"
  using preprocess_global_absorbs [of "\<lparr>heap = [0 \<mapsto> GlobalDF \<lparr>Year = [1880, 1881],
                 cols = [(''Jan'', [Str ''***'', Str ''1.5'']), (''Feb'', [Str ''abc'', Num 2])]\<rparr>],
        nxt = 1, dirs = {}, csvs = Map.empty, pngs = Map.empty\<rparr>" 0
        "\<lparr>Year = [1880, 1881],
                 cols = [(''Jan'', [Str ''***'', Str ''1.5'']), (''Feb'', [Str ''abc'', Num 2])]\<rparr>"
        "\<lambda>s. if s = ''1.5'' then Some (3 / 2) else None"]
  by simp

section \<open>The synthesized dates\<close>

lemma days_in_month_pos: "\<not> days_in_month y m < 1"
  by (simp add: days_in_month_def)

lemma to_datetime_first_day:
  assumes "1 \<le> m" and "m \<le> 12"
    and "(1677::int, 9::int, 22::int) \<le> (y, m, 1)"
    and "(y, m, 1) \<le> (2262::int, 4::int, 11::int)"
  shows "to_datetime (y, m, 1) = Inr (Timestamp y m 1)"
proof -
  have a: "\<not> (y, m, 1) < (1677::int, 9::int, 22::int)"
    using assms(3) by (simp only: not_less)
  have b: "\<not> (2262::int, 4::int, 11::int) < (y, m, 1)"
    using assms(4) by (simp only: not_less)
  have c: "\<not> m < 1" "\<not> 12 < m"
    using assms(1,2) by simp_all
  show ?thesis
    unfolding to_datetime_def
    by (simp only: prod.case a b c days_in_month_pos less_irrefl simp_thms if_False)
qed

lemma to_datetime_Inr: "to_datetime (y, m, d) = Inr t \<Longrightarrow> t = Timestamp y m d"
  unfolding to_datetime_def
  by (simp only: prod.case split: if_splits) simp_all

lemma to_datetime_all_Inr:
  "to_datetime_all xs = Inr ts \<Longrightarrow> ts = map (\<lambda>(y, m, d). Timestamp y m d) xs"
proof (induction xs arbitrary: ts)
  case Nil
  then show ?case by simp
next
  case (Cons x xs)
  obtain y m d where x: "x = (y, m, d)" by (cases x) auto
  from Cons.prems obtain t ts' where t: "to_datetime x = Inr t"
    and ts': "to_datetime_all xs = Inr ts'" and ts: "ts = t # ts'"
    by (auto split: sum.splits)
  from t x have "t = Timestamp y m d" by (simp add: to_datetime_Inr)
  with Cons.IH [OF ts'] ts x show ?case by simp
qed

lemma to_datetime_all_ok:
  "\<forall>x \<in> set xs. to_datetime x = Inr (case x of (y, m, d) \<Rightarrow> Timestamp y m d)
   \<Longrightarrow> to_datetime_all xs = Inr (map (\<lambda>(y, m, d). Timestamp y m d) xs)"
  by (induction xs) simp_all

text \<open>
  Claim C6. Whenever the date column of \<^verbatim>\<open>plot_minnesota_precip_line\<close> is built, the
  date of a row with year \<open>Y\<close> and month \<open>M\<close> is day 1 of month \<open>M\<close> of year \<open>Y\<close>; and it
  is built when every row has a month from 1 to 12 and its first day lies in the range of
  a timestamp.
\<close>

theorem date_column_first_day:
  "(\<forall>ds. date_column rs = Inr ds \<longrightarrow> ds = map (\<lambda>r. Timestamp (year r) (mo r) 1) rs)
   \<and> ((\<forall>r \<in> set rs. 1 \<le> mo r \<and> mo r \<le> 12
          \<and> (1677::int, 9::int, 22::int) \<le> (year r, mo r, 1)
          \<and> (year r, mo r, 1) \<le> (2262::int, 4::int, 11::int))
        \<longrightarrow> date_column rs = Inr (map (\<lambda>r. Timestamp (year r) (mo r) 1) rs))"
proof (intro conjI allI impI)
  fix ds assume "date_column rs = Inr ds"
  then have "ds = map (\<lambda>(y, m, d). Timestamp y m d) (map (\<lambda>r. (year r, mo r, 1)) rs)"
    unfolding date_column_def by (rule to_datetime_all_Inr)
  then show "ds = map (\<lambda>r. Timestamp (year r) (mo r) 1) rs"
    by (simp add: comp_def)
next
  assume v: "\<forall>r \<in> set rs. 1 \<le> mo r \<and> mo r \<le> 12
          \<and> (1677::int, 9::int, 22::int) \<le> (year r, mo r, 1)
          \<and> (year r, mo r, 1) \<le> (2262::int, 4::int, 11::int)"
  have "to_datetime_all (map (\<lambda>r. (year r, mo r, 1)) rs)
      = Inr (map (\<lambda>(y, m, d). Timestamp y m d) (map (\<lambda>r. (year r, mo r, 1)) rs))"
  proof (rule to_datetime_all_ok, rule ballI)
    fix x assume "x \<in> set (map (\<lambda>r. (year r, mo r, 1::int)) rs)"
    then obtain r where r: "r \<in> set rs" and x: "x = (year r, mo r, 1)" by auto
    from v r have "to_datetime (year r, mo r, 1) = Inr (Timestamp (year r) (mo r) 1)"
      by (intro to_datetime_first_day) blast+
    with x show "to_datetime x = Inr (case x of (y, m, d) \<Rightarrow> Timestamp y m d)" by simp
  qed
  then show "date_column rs = Inr (map (\<lambda>r. Timestamp (year r) (mo r) 1) rs)"
    by (simp add: date_column_def comp_def)
qed

theorem date_column_first_day_witness:
  "date_column [\<lparr>site = ''Duluth'', year = 1927, mo = 3, m_precip = Some 2\<rparr>,
                \<lparr>site = ''Morris'', year = 1936, mo = 12, m_precip = None\<rparr>]
     = Inr [Timestamp 1927 3 1, Timestamp 1936 12 1]"
proof -
  let ?rs = "[\<lparr>site = ''Duluth'', year = 1927, mo = 3, m_precip = Some 2\<rparr>,
                \<lparr>site = ''Morris'', year = 1936, mo = 12, m_precip = None\<rparr>]"
  have "\<forall>r \<in> set ?rs. 1 \<le> mo r \<and> mo r \<le> 12
          \<and> (1677::int, 9::int, 22::int) \<le> (year r, mo r, 1)
          \<and> (year r, mo r, 1) \<le> (2262::int, 4::int, 11::int)"
    by simp
  with date_column_first_day [of ?rs] have "date_column ?rs = Inr (map (\<lambda>r. Timestamp (year r) (mo r) 1) ?rs)"
    by blast
  then show ?thesis by simp
qed

section \<open>Melting and pivoting the anomaly table\<close>

lemma melt_ok:
  "\<forall>v \<in> set vs. map_of (cols g) v = Some (c v) \<Longrightarrow>
   melt g vs = Inr (concat (map (\<lambda>v. map (\<lambda>(y, a). (y, v, a)) (zip (Year g) (c v))) vs))"
  by (induction vs) auto

lemma block_lookup:
  "map_of (map (\<lambda>(y, a). ((y, k), a)) zs) (y, k') = (if k' = k then map_of zs y else None)"
  by (induction zs) auto

lemma blocks_lookup_None:
  "k \<notin> f ` set vs \<Longrightarrow>
   map_of (concat (map (\<lambda>v. map (\<lambda>(y, a). ((y, f v), a)) (zs v)) vs)) (y, k) = None"
proof (induction vs)
  case Nil
  then show ?case by simp
next
  case (Cons v vs)
  then have "k \<noteq> f v" and "k \<notin> f ` set vs" by auto
  with Cons.IH show ?case
    by (simp add: block_lookup map_add_def)
qed

lemma blocks_lookup:
  assumes "v0 \<in> set vs" and "distinct vs" and "inj_on f (set vs)"
  shows "map_of (concat (map (\<lambda>v. map (\<lambda>(y, a). ((y, f v), a)) (zs v)) vs)) (y, f v0)
         = map_of (zs v0) y"
  using assms
proof (induction vs)
  case Nil
  then show ?case by simp
next
  case (Cons v vs)
  let ?R = "concat (map (\<lambda>v. map (\<lambda>(y, a). ((y, f v), a)) (zs v)) vs)"
  have step: "map_of (concat (map (\<lambda>v. map (\<lambda>(y, a). ((y, f v), a)) (zs v)) (v # vs))) (y, f v0)
      = (case (if f v0 = f v then map_of (zs v) y else None) of
           None \<Rightarrow> map_of ?R (y, f v0) | Some a \<Rightarrow> Some a)"
    by (simp add: block_lookup map_add_def)
  show ?case
  proof (cases "v = v0")
    case True
    with Cons.prems have "v0 \<notin> set vs" by simp
    with Cons.prems(3) True have "f v0 \<notin> f ` set vs"
      by (auto simp: inj_on_def)
    then have none: "map_of ?R (y, f v0) = None" by (rule blocks_lookup_None)
    show ?thesis
      by (subst step) (simp add: True none split: option.splits)
  next
    case False
    with Cons.prems have in_vs: "v0 \<in> set vs" by simp
    from Cons.prems(3) in_vs False have ne: "f v0 \<noteq> f v"
      by (auto simp: inj_on_def)
    from Cons.prems have "distinct vs" "inj_on f (set vs)" by (simp_all add: inj_on_def)
    from Cons.IH [OF in_vs this] have ih: "map_of ?R (y, f v0) = map_of (zs v0) y" .
    show ?thesis
      by (subst step) (simp add: ne ih)
  qed
qed

lemma blocks_distinct:
  assumes "distinct ys" and "distinct vs" and "inj_on f (set vs)"
  shows "distinct (concat (map (\<lambda>v. map (\<lambda>y. (y, f v)) ys) vs))"
  using assms
proof (induction vs)
  case Nil
  then show ?case by simp
next
  case (Cons v vs)
  have "distinct (map (\<lambda>y. (y, f v)) ys)"
    using Cons.prems(1) by (simp add: distinct_map inj_on_def)
  moreover have "distinct (concat (map (\<lambda>v. map (\<lambda>y. (y, f v)) ys) vs))"
    using Cons by (simp add: inj_on_def)
  moreover have "set (map (\<lambda>y. (y, f v)) ys)
      \<inter> set (concat (map (\<lambda>v. map (\<lambda>y. (y, f v)) ys) vs)) = {}"
    using Cons.prems(2,3) by (auto simp: inj_on_def)
  ultimately show ?case by simp
qed

lemma inj_month_order: "inj_on month_order (set months)"
  by (simp add: months_def month_order_def)

lemma month_order_dom: "month_order m = Some n \<Longrightarrow> m \<in> set months"
  unfolding month_order_def months_def
  by (drule map_of_SomeD) auto

lemma month_order_image:
  "month_order ` set months =
     set (map Some [1, 2, 3, 4, 5, 6, 7, 8, 9, 10, 11, 12])"
  by (simp add: months_def month_order_def) blast

lemma proj_blocks:
  assumes "\<forall>v \<in> set vs. length (c v) = length ys"
  shows "concat (map (\<lambda>v. map (\<lambda>(y, a). G v y) (zip ys (c v))) vs)
         = concat (map (\<lambda>v. map (G v) ys) vs)"
proof -
  have "map (\<lambda>v. map (\<lambda>(y, a). G v y) (zip ys (c v))) vs = map (\<lambda>v. map (G v) ys) vs"
  proof (rule map_cong [OF refl])
    fix v assume "v \<in> set vs"
    with assms have l: "length ys = length (c v)" by simp
    have "map (\<lambda>(y, a). G v y) (zip ys (c v)) = map (G v) (map fst (zip ys (c v)))"
      by (simp add: comp_def case_prod_unfold)
    also have "\<dots> = map (G v) ys" using l by simp
    finally show "map (\<lambda>(y, a). G v y) (zip ys (c v)) = map (G v) ys" .
  qed
  then show ?thesis by (rule arg_cong)
qed

lemma distinct_months: "distinct months"
  by (simp add: months_def)

lemma months_nonempty: "months \<noteq> []"
  by (simp add: months_def)

lemma set_concat_const: "vs \<noteq> [] \<Longrightarrow> set (concat (map (\<lambda>v. ys) vs)) = set ys"
  by (cases vs) auto

lemma sort_remdups_eq:
  assumes "set xs = set ys" and "distinct ys"
  shows "sort (remdups xs) = sort ys"
proof (rule sorted_distinct_set_unique)
  show "sorted (sort (remdups xs))" by simp
  show "distinct (sort (remdups xs))" by simp
  show "sorted (sort ys)" by simp
  show "distinct (sort ys)" using assms(2) by simp
  show "set (sort (remdups xs)) = set (sort ys)" using assms(1) by simp
qed

lemma sort_remdups_sorted:
  assumes "set xs = set ys" and "distinct ys" and "sorted ys"
  shows "sort (remdups xs) = ys"
  using sort_remdups_eq [OF assms(1,2)] assms(3) by (simp add: sorted_sort_id)

lemma heatmap_data_eq:
  assumes dy: "distinct (Year g)"
    and cs: "\<forall>m \<in> set months. map_of (cols g) m = Some (c m) \<and> length (c m) = length (Year g)"
  shows "heatmap_data g =
    Inr \<lparr>index = sort (Year g),
         columns = (if Year g = [] then [] else map Some [1, 2, 3, 4, 5, 6, 7, 8, 9, 10, 11, 12]),
         vals = map (\<lambda>y. map (\<lambda>k. case map_of (concat (map (\<lambda>v. map (\<lambda>(y, a). ((y, month_order v), a))
                                     (zip (Year g) (c v))) months)) (y, k) of
                              None \<Rightarrow> NA | Some a \<Rightarrow> a)
                     (if Year g = [] then [] else map Some [1, 2, 3, 4, 5, 6, 7, 8, 9, 10, 11, 12]))
                  (sort (Year g))\<rparr>"
proof -
  let ?L = "concat (map (\<lambda>v. map (\<lambda>(y, a). (y, v, a)) (zip (Year g) (c v))) months)"
  let ?L' = "map (\<lambda>(y, m, a). (y, month_order m, a)) ?L"
  have len: "\<forall>v \<in> set months. length (c v) = length (Year g)" using cs by simp
  have m: "melt g months = Inr ?L"
    by (rule melt_ok) (use cs in simp)
  have keyed: "map (\<lambda>(i, c, v). ((i, c), v)) ?L'
      = concat (map (\<lambda>v. map (\<lambda>(y, a). ((y, month_order v), a)) (zip (Year g) (c v))) months)"
    by (simp add: map_concat comp_def case_prod_unfold)
  have keys: "map (\<lambda>(i, c, v). (i, c)) ?L'
      = concat (map (\<lambda>v. map (\<lambda>y. (y, month_order v)) (Year g)) months)"
    using proj_blocks [OF len, of "\<lambda>v y. (y, month_order v)"]
    by (simp add: map_concat comp_def case_prod_unfold)
  have ix: "map (\<lambda>(i, c, v). i) ?L' = concat (map (\<lambda>v. Year g) months)"
    using proj_blocks [OF len, of "\<lambda>v y. y"]
    by (simp add: map_concat comp_def case_prod_unfold)
  have cls: "map (\<lambda>(i, c, v). c) ?L'
      = concat (map (\<lambda>v. map (\<lambda>y. month_order v) (Year g)) months)"
    using proj_blocks [OF len, of "\<lambda>v y. month_order v"]
    by (simp add: map_concat comp_def case_prod_unfold)
  have d: "distinct (map (\<lambda>(i, c, v). (i, c)) ?L')"
    by (simp only: keys) (rule blocks_distinct [OF dy distinct_months inj_month_order])
  have idx: "sort (remdups (map (\<lambda>(i, c, v). i) ?L')) = sort (Year g)"
    by (rule sort_remdups_eq) (simp_all only: ix set_concat_const [OF months_nonempty] dy)
  have cset: "set (map (\<lambda>(i, c, v). c) ?L')
      = set (if Year g = [] then [] else map Some [1, 2, 3, 4, 5, 6, 7, 8, 9, 10, 11, 12])"
  proof (cases "Year g = []")
    case True
    then show ?thesis by (simp only: cls) simp
  next
    case False
    then have H: "\<And>v. (\<lambda>y. month_order v) ` set (Year g) = {month_order v}"
      by (cases "Year g") auto
    have "set (concat (map (\<lambda>v. map (\<lambda>y. month_order v) (Year g)) months))
        = month_order ` set months"
      by (auto simp: H)
    with False show ?thesis
      by (simp only: cls month_order_image if_False)
  qed
  have col: "sort (remdups (map (\<lambda>(i, c, v). c) ?L'))
      = (if Year g = [] then [] else map Some [1, 2, 3, 4, 5, 6, 7, 8, 9, 10, 11, 12])"
    by (rule sort_remdups_sorted [OF cset]) simp_all
  show ?thesis
    unfolding heatmap_data_def
    by (simp only: m sum.case pivot_keyed [OF d] keyed idx col)
       (rule arg_cong [where f = Inr], rule sort_index_rows_sorted, simp_all)
qed

text \<open>
  Claim C2. For a wide anomaly table with distinct years and the twelve month columns, each
  as long as the \<^verbatim>\<open>Year\<close> column, the reshape of \<^verbatim>\<open>plot_global_temp_heatmap\<close> returns
  a matrix whose rows are the years in ascending order and whose columns are the months 1
  to 12, and the cell under a year and the number of a month is the cell of that year's
  row in that month's column, unchanged: a number stays that number and a missing cell
  stays missing.
\<close>

theorem reshape_round_trip:
  assumes dy: "distinct (Year g)"
    and cs: "\<forall>m \<in> set months. \<exists>col. map_of (cols g) m = Some col \<and> length col = length (Year g)"
  shows "\<exists>M. heatmap_data g = Inr M
     \<and> index M = sort (Year g)
     \<and> columns M = (if Year g = [] then [] else map Some [1, 2, 3, 4, 5, 6, 7, 8, 9, 10, 11, 12])
     \<and> (\<forall>i < length (Year g). \<forall>m n col.
           month_order m = Some n \<longrightarrow> map_of (cols g) m = Some col \<longrightarrow>
           loc M (Year g ! i) (Some n) = Some (col ! i))"
proof -
  define c where "c m = (case map_of (cols g) m of None \<Rightarrow> [] | Some col \<Rightarrow> col)" for m
  have cs': "\<forall>m \<in> set months. map_of (cols g) m = Some (c m) \<and> length (c m) = length (Year g)"
    using cs by (auto simp: c_def)
  let ?cls = "if Year g = [] then [] else map Some [1, 2, 3, 4, 5, 6, 7, 8, 9, 10, 11, 12]"
  let ?K = "concat (map (\<lambda>v. map (\<lambda>(y, a). ((y, month_order v), a)) (zip (Year g) (c v))) months)"
  let ?f = "\<lambda>y k. case map_of ?K (y, k) of None \<Rightarrow> NA | Some a \<Rightarrow> a"
  let ?M = "\<lparr>index = sort (Year g), columns = ?cls,
             vals = map (\<lambda>y. map (?f y) ?cls) (sort (Year g))\<rparr>"
  have M: "heatmap_data g = Inr ?M"
    by (rule heatmap_data_eq [OF dy cs'])
  have cell: "loc ?M (Year g ! i) (Some n) = Some (col ! i)"
    if i: "i < length (Year g)" and n: "month_order m = Some n"
      and col: "map_of (cols g) m = Some col" for i m n col
  proof -
    from n have m: "m \<in> set months" by (rule month_order_dom)
    with cs' col have colc: "col = c m" and len: "length (Year g) = length (c m)" by auto
    from i have ne: "Year g \<noteq> []" by auto
    from m n have "Some n \<in> month_order ` set months" by (metis imageI)
    with ne have incol: "Some n \<in> set ?cls" by (simp only: month_order_image if_False)
    from i have inidx: "Year g ! i \<in> set (sort (Year g))" by simp
    have "map_of ?K (Year g ! i, month_order m) = map_of (zip (Year g) (c m)) (Year g ! i)"
      by (rule blocks_lookup [OF m distinct_months inj_month_order])
    also have "\<dots> = Some (c m ! i)"
      using len dy i by (intro map_of_zip_nth) simp_all
    finally have look: "?f (Year g ! i) (Some n) = col ! i"
      using n colc by simp
    have "loc ?M (Year g ! i) (Some n)
        = (if Year g ! i \<in> set (sort (Year g)) \<and> Some n \<in> set ?cls
           then Some (?f (Year g ! i) (Some n)) else None)"
      by (rule loc_grid) simp_all
    with inidx incol look show ?thesis by (simp only: if_True simp_thms)
  qed
  have "index ?M = sort (Year g)" "columns ?M = ?cls" by simp_all
  with M cell show ?thesis by blast
qed

theorem reshape_round_trip_witness:
  "\<exists>M. heatmap_data
         \<lparr>Year = [1881, 1880, 1882],
          cols = map (\<lambda>m. (m, if m = ''Jul'' then [NA, Num (- 1 / 5), Num (1 / 10)]
                               else [Num (- 1 / 10), Num 0, Num (1 / 4)])) months\<rparr> = Inr M
     \<and> index M = [1880, 1881, 1882]
     \<and> loc M 1881 (Some 7) = Some NA
     \<and> loc M 1881 (Some 6) = Some (Num (- 1 / 10))
     \<and> loc M 1880 (Some 7) = Some (Num (- 1 / 5))
     \<and> loc M 1880 (Some 1) = Some (Num 0)"
proof -
  let ?g = "\<lparr>Year = [1881, 1880, 1882],
          cols = map (\<lambda>m. (m, if m = ''Jul'' then [NA, Num (- 1 / 5), Num (1 / 10)]
                               else [Num (- 1 / 10), Num 0, Num (1 / 4)])) months\<rparr>"
  have d: "distinct (Year ?g)" by simp
  have c: "\<forall>m \<in> set months. \<exists>col. map_of (cols ?g) m = Some col \<and> length col = length (Year ?g)"
    by (simp add: months_def)
  from reshape_round_trip [OF d c] obtain M where M: "heatmap_data ?g = Inr M"
    and i: "index M = sort (Year ?g)"
    and cells: "\<forall>i < length (Year ?g). \<forall>m n col.
           month_order m = Some n \<longrightarrow> map_of (cols ?g) m = Some col \<longrightarrow>
           loc M (Year ?g ! i) (Some n) = Some (col ! i)"
    by blast
  have "loc M 1881 (Some 7) = Some NA"
    using cells [rule_format, of 0 "''Jul''" 7 "[NA, Num (- 1 / 5), Num (1 / 10)]"]
    by (simp add: months_def month_order_def)
  moreover have "loc M 1881 (Some 6) = Some (Num (- 1 / 10))"
    using cells [rule_format, of 0 "''Jun''" 6 "[Num (- 1 / 10), Num 0, Num (1 / 4)]"]
    by (simp add: months_def month_order_def)
  moreover have "loc M 1880 (Some 7) = Some (Num (- 1 / 5))"
    using cells [rule_format, of 1 "''Jul''" 7 "[NA, Num (- 1 / 5), Num (1 / 10)]"]
    by (simp add: months_def month_order_def)
  moreover have "loc M 1880 (Some 1) = Some (Num 0)"
    using cells [rule_format, of 1 "''Jan''" 1 "[Num (- 1 / 10), Num 0, Num (1 / 4)]"]
    by (simp add: months_def month_order_def)
  moreover have "index M = [1880, 1881, 1882]" using i by simp
  ultimately show ?thesis using M by blast
qed

section \<open>Marker sizes\<close>

lemma fold_min_le: "fold min xs (x::rat) \<le> x"
proof (induction xs arbitrary: x)
  case Nil
  then show ?case by simp
next
  case (Cons a xs)
  have "fold min xs (min a x) \<le> min a x" by (rule Cons.IH)
  then show ?case by simp
qed

lemma fold_max_ge: "(x::rat) \<le> fold max xs x"
proof (induction xs arbitrary: x)
  case Nil
  then show ?case by simp
next
  case (Cons a xs)
  have "max a x \<le> fold max xs (max a x)" by (rule Cons.IH)
  then show ?case by simp
qed

lemma size_norm_mono: "v1 \<le> v2 \<Longrightarrow> size_norm col v1 \<le> size_norm col v2"
proof (cases col)
  case Nil
  then show ?thesis by (simp add: size_norm_def)
next
  case (Cons x xs)
  assume v: "v1 \<le> v2"
  have le: "fold min xs x \<le> fold max xs x"
    using fold_min_le [of xs x] fold_max_ge [of x xs] by simp
  show ?thesis
  proof (cases "fold min xs x = fold max xs x")
    case True
    with Cons show ?thesis by (simp add: size_norm_def)
  next
    case False
    with le have pos: "0 < fold max xs x - fold min xs x" by simp
    from v have "(v1 - fold min xs x) / (fold max xs x - fold min xs x)
        \<le> (v2 - fold min xs x) / (fold max xs x - fold min xs x)"
      using pos by (simp add: divide_right_mono)
    with Cons False show ?thesis
      by (simp add: size_norm_def Let_def) 
  qed
qed

lemma size_map_mono:
  "v1 \<le> v2 \<Longrightarrow> size_map size_range col v1 \<le> size_map size_range col v2"
  using size_norm_mono [of v1 v2 col]
  by (simp add: size_map_def size_range_def)

lemma np_interp_clamps: "0 \<le> mp \<Longrightarrow> mp \<le> v \<Longrightarrow> np_interp v (0, mp) size_range = 300"
  by (simp add: np_interp_def size_range_def)

text \<open>
  Claim C3. The markers are sized by \<open>size_map\<close>, which is monotonic (lemma
  \<open>size_map_mono\<close>) but scaled to the least and greatest value of the column: the
  95th percentile computed at line 116 reaches only the legend. On the table whose
  precipitation values are 0, 1, ..., 21 the 95th percentile is 19.95; the value 20 lies
  above it, yet its marker has size 860/3 and not the maximum 300, while the legend's
  interpolation assigns 300 to that value.
\<close>

theorem marker_size_above_p95_not_maximal:
  "precip_filled Map.empty
      (map (\<lambda>v. \<lparr>city = ''A'', month = 1, avg_temp = Some 50, avg_humidity = Some 60, precip = Num v\<rparr>)
         [0, 1, 2, 3, 4, 5, 6, 7, 8, 9, 10, 11, 12, 13, 14, 15, 16, 17, 18, 19, 20, 21])
     = Inr [0, 1, 2, 3, 4, 5, 6, 7, 8, 9, 10, 11, 12, 13, 14, 15, 16, 17, 18, 19, 20, 21]
   \<and> max_precip [0, 1, 2, 3, 4, 5, 6, 7, 8, 9, 10, 11, 12, 13, 14, 15, 16, 17, 18, 19, 20, 21]
       = 399 / 20
   \<and> size_map size_range
        [0, 1, 2, 3, 4, 5, 6, 7, 8, 9, 10, 11, 12, 13, 14, 15, 16, 17, 18, 19, 20, 21] 20
       = 860 / 3
   \<and> np_interp 20 (0, 399 / 20) size_range = 300"
  by code_simp

section \<open>The precipitation legend\<close>

lemma rint_near: "of_int (rint x) \<le> x + 1 / 2 \<and> x - 1 / 2 \<le> of_int (rint x)"
proof -
  define f where "f = \<lfloor>x\<rfloor>"
  have f1: "of_int f \<le> x" and f2: "x < of_int f + 1"
    unfolding f_def by linarith+
  have r: "rint x = (if x - of_int f < 1 / 2 then f
                     else if 1 / 2 < x - of_int f then f + 1
                     else if even f then f else f + 1)"
    by (simp add: rint_def f_def Let_def)
  show ?thesis
    unfolding r using f1 f2 by auto
qed

lemma rint_strict: "a + 1 < b \<Longrightarrow> rint a < rint b"
proof -
  assume "a + 1 < b"
  moreover have "of_int (rint a) \<le> a + 1 / 2" "b - 1 / 2 \<le> of_int (rint b)"
    using rint_near by blast+
  ultimately have "(of_int (rint a) :: rat) < of_int (rint b)" by linarith
  then show ?thesis by simp
qed

lemma np_round_strict: "a + 1 / 100 < b \<Longrightarrow> np_round a 2 < np_round b 2"
proof -
  assume "a + 1 / 100 < b"
  then have "a * 100 + 1 < b * 100" by simp
  then have "rint (a * 100) < rint (b * 100)" by (rule rint_strict)
  then show ?thesis by (simp add: np_round_def divide_strict_right_mono)
qed

lemma linspace_4: "linspace 0 mp 4 = [0, mp / 3, 2 * mp / 3, mp]"
  by (simp add: linspace_def upt_rec numeral_eq_Suc)

lemma ref_values_eq:
  "ref_values mp =
     sort (remdups [np_round 0 2, np_round (mp / 3) 2, np_round (2 * mp / 3) 2, np_round mp 2])"
  by (simp only: ref_values_def np_unique_def linspace_4 list.map)

text \<open>
  Claim C9, as amended. The legend's reference values are the four points evenly spaced
  from 0 to the cutoff \<open>mp\<close>, each rounded to two decimals, in ascending order with
  duplicates removed: between one and four values, and exactly four, in the order of the
  points, when the cutoff exceeds 0.03.
\<close>

theorem ref_values_rounded_unique:
  "ref_values mp =
     sort (remdups [np_round 0 2, np_round (mp / 3) 2, np_round (2 * mp / 3) 2, np_round mp 2])
   \<and> 1 \<le> length (ref_values mp) \<and> length (ref_values mp) \<le> 4
   \<and> (3 / 100 < mp \<longrightarrow>
        ref_values mp = [0, np_round (mp / 3) 2, np_round (2 * mp / 3) 2, np_round mp 2]
        \<and> length (ref_values mp) = 4)"
proof -
  let ?l = "[np_round 0 2, np_round (mp / 3) 2, np_round (2 * mp / 3) 2, np_round mp 2]"
  have e: "ref_values mp = sort (remdups ?l)" by (rule ref_values_eq)
  have "length (remdups ?l) \<le> length ?l" by (rule length_remdups_leq)
  then have up: "length (ref_values mp) \<le> 4" by (simp only: e length_sort) simp
  have "remdups ?l \<noteq> []" by (simp only: remdups_eq_nil_iff) simp
  then have lo: "1 \<le> length (ref_values mp)"
    by (simp only: e length_sort) (simp add: Suc_le_eq)
  have four: "ref_values mp = [0, np_round (mp / 3) 2, np_round (2 * mp / 3) 2, np_round mp 2]
        \<and> length (ref_values mp) = 4" if big: "3 / 100 < mp"
  proof -
    have z: "np_round 0 2 = 0" by (simp add: np_round_def rint_def)
    have a: "np_round 0 2 < np_round (mp / 3) 2"
      by (rule np_round_strict) (use big in simp)
    have b: "np_round (mp / 3) 2 < np_round (2 * mp / 3) 2"
      by (rule np_round_strict) (use big in simp)
    have c: "np_round (2 * mp / 3) 2 < np_round mp 2"
      by (rule np_round_strict) (use big in simp)
    have d: "distinct ?l" using a b c by auto
    have s: "sorted ?l" using a b c by auto
    have "sort (remdups ?l) = ?l"
      using d s by (simp only: distinct_remdups_id sorted_sort_id)
    with e z show ?thesis by simp
  qed
  from e lo up four show ?thesis by blast
qed

theorem ref_values_rounded_unique_witness:
  "ref_values 1 = [0, 33 / 100, 67 / 100, 1] \<and> length (ref_values 1) = 4"
proof -
  have "(3::rat) / 100 < 1" by simp
  with ref_values_rounded_unique [of 1] have "ref_values 1 = [0, np_round (1 / 3) 2, np_round (2 * 1 / 3) 2, np_round 1 2]"
    and "length (ref_values 1) = 4" by blast+
  moreover have "np_round (1 / 3) 2 = 33 / 100" "np_round (2 * 1 / 3) 2 = 67 / 100"
    "np_round 1 2 = 1" by code_simp+
  ultimately show ?thesis by simp
qed

text \<open>
  Claim C9 as stated, with exactly four reference values for every table, fails on a table
  without measurable precipitation: the cutoff is 0, the four points coincide and the
  legend has a single reference value.
\<close>

theorem legend_single_value:
  "precip_filled Map.empty
      [\<lparr>city = ''A'', month = 1, avg_temp = Some 50, avg_humidity = Some 60, precip = Num 0\<rparr>,
       \<lparr>city = ''A'', month = 1, avg_temp = Some 52, avg_humidity = Some 65, precip = NA\<rparr>,
       \<lparr>city = ''B'', month = 2, avg_temp = Some 48, avg_humidity = Some 70, precip = Str ''T''\<rparr>]
     = Inr [0, 0, 0]
   \<and> max_precip [0, 0, 0] = 0
   \<and> ref_values (max_precip [0, 0, 0]) = [0]
   \<and> length (ref_values (max_precip [0, 0, 0])) \<noteq> 4"
  by code_simp

section \<open>Running the renderers\<close>

lemma rstrip_sep_id: "x \<noteq> [] \<Longrightarrow> \<not> is_sep (last x) \<Longrightarrow> rstrip_sep x = x"
proof (cases x rule: rev_cases)
  case Nil
  then show ?thesis by (simp add: rstrip_sep_def)
next
  case (snoc ys y)
  assume "\<not> is_sep (last x)"
  with snoc have "\<not> is_sep y" by simp
  with snoc show ?thesis by (simp add: rstrip_sep_def)
qed


lemma strip_head_sep: "x \<noteq> [] \<Longrightarrow> \<not> is_sep (last x) \<Longrightarrow> strip_head (x @ ''/'') = x"
proof -
  assume x: "x \<noteq> []" and l: "\<not> is_sep (last x)"
  then have "last x \<in> set (x @ ''/'')" by simp
  with l have "\<not> list_all is_sep (x @ ''/'')" by (auto simp: list_all_iff)
  moreover have "rstrip_sep (x @ ''/'') = rstrip_sep x"
    by (simp add: rstrip_sep_def is_sep_def)
  ultimately show ?thesis using x l by (simp add: strip_head_def rstrip_sep_id)
qed

lemma dirname_join:
  assumes "x \<noteq> []" and "\<not> is_sep (last x)" and "n \<noteq> []" and "\<forall>ch \<in> set n. \<not> is_sep ch"
  shows "os_path_dirname (os_path_join x n) = x"
proof -
  from assms(3,4) have "\<not> is_sep (hd n)" by (cases n) auto
  with assms have j: "os_path_join x n = x @ ''/'' @ n" by (simp add: os_path_join_def)
  have "dropWhile (\<lambda>ch. \<not> is_sep ch) (rev n @ CHR ''/'' # rev x)
      = dropWhile (\<lambda>ch. \<not> is_sep ch) (CHR ''/'' # rev x)"
    by (rule dropWhile_append2) (use assms(4) in auto)
  then have "dropWhile (\<lambda>ch. \<not> is_sep ch) (rev n @ CHR ''/'' # rev x) = CHR ''/'' # rev x"
    by (simp add: is_sep_def)
  then have "rev (dropWhile (\<lambda>ch. \<not> is_sep ch) (rev (x @ ''/'' @ n))) = x @ ''/''"
    by simp
  then show ?thesis
    by (simp only: os_path_dirname_def j strip_head_sep [OF assms(1,2)])
qed



lemma savefig_ok:
  "os_path_dirname f \<in> dirs w \<Longrightarrow> savefig f fig w = Inr (f, w\<lparr>pngs := (pngs w)(f \<mapsto> fig)\<rparr>)"
  by (simp add: savefig_def)

lemma savefig_heap: "savefig f fig w = Inr (f', w') \<Longrightarrow> heap w' = heap w \<and> nxt w' = nxt w"
  by (auto simp: savefig_def split: if_splits)



lemma pivot_table_nonempty:
  assumes "rs \<noteq> []" and "pivot_table rs = Inr M"
  shows "index M \<noteq> [] \<and> columns M \<noteq> []"
proof -
  from assms(2) have i: "index M = sort (remdups (map (\<lambda>(i, c, v). i) (monthly_avg rs)))"
    and c: "columns M = sort (remdups (map (\<lambda>(i, c, v). c) (monthly_avg rs)))"
    by (auto simp: pivot_table_eq)
  have "set (index M) = city ` set rs"
    using monthly_avg_index [of rs] by (simp add: i)
  moreover have "set (columns M) = month ` set rs"
    using monthly_avg_columns [of rs] by (simp add: c)
  ultimately show ?thesis using assms(1) by (cases rs) auto
qed

lemma plot_weather_heatmap_ok:
  assumes "heap w a = Some (WeatherDF rs)" and "pivot_table rs = Inr M" and "rs \<noteq> []"
    and "os_path_dirname (os_path_join d ''weather_heatmap.png'') \<in> dirs w"
  shows "plot_weather_heatmap a d w =
    Inr (os_path_join d ''weather_heatmap.png'',
         w\<lparr>pngs := (pngs w)(os_path_join d ''weather_heatmap.png'' \<mapsto> WeatherHeatmap M)\<rparr>)"
  using assms pivot_table_nonempty [of rs M]
  by (simp add: plot_weather_heatmap_def savefig_ok)


lemma plot_weather_scatter_ok:
  assumes "heap w a = Some (WeatherDF rs)" and "precip_filled parse rs = Inr col"
    and "sizes_finite col"
    and "os_path_dirname (os_path_join d ''weather_scatter.png'') \<in> dirs w"
  shows "plot_weather_scatter parse a d w =
    Inr (os_path_join d ''weather_scatter.png'',
         w\<lparr>heap := (heap w)(nxt w \<mapsto> WeatherDF (map (\<lambda>(r, v). r\<lparr>precip := Num v\<rparr>) (zip rs col))),
           nxt := Suc (nxt w),
           pngs := (pngs w)(os_path_join d ''weather_scatter.png'' \<mapsto>
                     Scatter (scatter_points rs col) (size_handles (max_precip col)))\<rparr>)"
  using assms
  by (simp add: plot_weather_scatter_def copy_def alloc_def set_precip_def savefig_ok)



section \<open>Running the orchestrator\<close>

lemma precip_filled_total: "\<exists>col. precip_filled parse rs = Inr col"
  by (simp add: precip_filled_def to_numeric_coerce)























section \<open>The renderers and their input frames\<close>

lemma plot_weather_heatmap_heap:
  "plot_weather_heatmap a d w = Inr (f, w') \<Longrightarrow> heap w' = heap w"
  unfolding plot_weather_heatmap_def
  by (auto split: option.splits obj.splits sum.splits if_splits dest: savefig_heap)

lemma plot_global_temp_heatmap_heap:
  "plot_global_temp_heatmap a d w = Inr (f, w') \<Longrightarrow> heap w' = heap w"
  unfolding plot_global_temp_heatmap_def
  by (auto split: option.splits obj.splits sum.splits dest: savefig_heap)

lemma plot_weather_scatter_frame:
  assumes "plot_weather_scatter parse a d w = Inr (f, w')" and "b \<noteq> nxt w"
  shows "heap w' b = heap w b"
proof -
  from assms(1) obtain ob where ob: "heap w a = Some ob"
    by (auto simp: plot_weather_scatter_def copy_def split: option.splits)
  with assms(1) obtain rs where rs: "ob = WeatherDF rs"
    by (cases ob) (auto simp: plot_weather_scatter_def copy_def alloc_def)
  obtain col where col: "precip_filled parse rs = Inr col"
    using precip_filled_total by blast
  define w2 where "w2 = w\<lparr>nxt := Suc (nxt w), heap := (heap w)(nxt w \<mapsto>
                 WeatherDF (map (\<lambda>(r, v). r\<lparr>precip := Num v\<rparr>) (zip rs col)))\<rparr>"
  have s: "savefig (os_path_join d ''weather_scatter.png'')
          (Scatter (scatter_points rs col) (size_handles (max_precip col))) w2 = Inr (f, w')"
    using assms(1) ob rs col
    by (simp add: plot_weather_scatter_def copy_def alloc_def set_precip_def w2_def
          split: if_splits)
  from savefig_heap [OF s] assms(2) show ?thesis by (simp add: w2_def)
qed

lemma plot_minnesota_precip_line_frame:
  assumes "plot_minnesota_precip_line a d w = Inr (f, w')" and "b \<noteq> nxt w"
  shows "heap w' b = heap w b"
proof -
  from assms(1) obtain ob where ob: "heap w a = Some ob"
    by (auto simp: plot_minnesota_precip_line_def copy_def split: option.splits)
  with assms(1) obtain fr where fr: "ob = MinnDF fr"
    by (cases ob) (auto simp: plot_minnesota_precip_line_def copy_def alloc_def)
  from assms(1) ob fr obtain ds where ds: "date_column (rows fr) = Inr ds"
    by (cases "date_column (rows fr)")
       (auto simp: plot_minnesota_precip_line_def copy_def alloc_def)
  define w2 where "w2 = w\<lparr>nxt := Suc (nxt w),
               heap := (heap w)(nxt w \<mapsto> MinnDF (fr\<lparr>date := Some ds\<rparr>))\<rparr>"
  have s: "savefig (os_path_join d ''minnesota_precip_line.png'')
          (Line (map (\<lambda>(r, d). (site r, d, m_precip r)) (zip (rows fr) ds))) w2 = Inr (f, w')"
    using assms(1) ob fr ds
    by (simp add: plot_minnesota_precip_line_def copy_def alloc_def w2_def)
  from savefig_heap [OF s] assms(2) show ?thesis by (simp add: w2_def)
qed

lemma plot_weather_scatter_same_table:
  "heap w b = heap w a \<Longrightarrow> plot_weather_scatter parse b d w = plot_weather_scatter parse a d w"
  by (simp add: plot_weather_scatter_def copy_def)

text \<open>
  Claim C10. No renderer changes the frame it is given. The two heatmap renderers leave
  the whole store as it is; the scatter and the line renderer assign only into the copy
  they allocate, so the frame at an allocated address \<open>a\<close> is afterwards what it was.
  Hence, after the weather heatmap has been drawn from the frame at \<open>a\<close>, drawing the
  scatter plot from \<open>a\<close> is the same as drawing it from any other frame \<open>b\<close> holding that
  table.
\<close>

theorem renderers_keep_input:
  "(plot_weather_heatmap a d w = Inr (f, w') \<longrightarrow> heap w' = heap w)
   \<and> (plot_global_temp_heatmap a d w = Inr (f, w') \<longrightarrow> heap w' = heap w)
   \<and> (a < nxt w \<longrightarrow> plot_weather_scatter parse a d w = Inr (f, w') \<longrightarrow> heap w' a = heap w a)
   \<and> (a < nxt w \<longrightarrow> plot_minnesota_precip_line a d w = Inr (f, w') \<longrightarrow> heap w' a = heap w a)
   \<and> (plot_weather_heatmap a d w = Inr (f, w') \<longrightarrow> heap w b = heap w a \<longrightarrow>
        plot_weather_scatter parse a d w' = plot_weather_scatter parse b d w')"
proof (intro conjI impI)
  assume "plot_weather_heatmap a d w = Inr (f, w')"
  then show "heap w' = heap w" by (rule plot_weather_heatmap_heap)
next
  assume "plot_global_temp_heatmap a d w = Inr (f, w')"
  then show "heap w' = heap w" by (rule plot_global_temp_heatmap_heap)
next
  assume "a < nxt w" and "plot_weather_scatter parse a d w = Inr (f, w')"
  then show "heap w' a = heap w a"
    by (intro plot_weather_scatter_frame) simp_all
next
  assume "a < nxt w" and "plot_minnesota_precip_line a d w = Inr (f, w')"
  then show "heap w' a = heap w a"
    by (intro plot_minnesota_precip_line_frame) simp_all
next
  assume p: "plot_weather_heatmap a d w = Inr (f, w')" and e: "heap w b = heap w a"
  from p have "heap w' = heap w" by (rule plot_weather_heatmap_heap)
  with e have "heap w' a = heap w' b" by simp
  then show "plot_weather_scatter parse a d w' = plot_weather_scatter parse b d w'"
    by (rule plot_weather_scatter_same_table)
qed

theorem renderers_keep_input_witness:
  "\<exists>f1 w1 f2 w2.
     plot_weather_heatmap 0 ''out''
       \<lparr>heap = [0 \<mapsto> WeatherDF [\<lparr>city = ''A'', month = 1, avg_temp = Some 50,
                                  avg_humidity = Some 60, precip = Str ''T''\<rparr>]],
        nxt = 1, dirs = {''out''}, csvs = Map.empty, pngs = Map.empty\<rparr> = Inr (f1, w1)
     \<and> plot_weather_scatter Map.empty 0 ''out'' w1 = Inr (f2, w2)
     \<and> heap w2 0 = Some (WeatherDF [\<lparr>city = ''A'', month = 1, avg_temp = Some 50,
                                      avg_humidity = Some 60, precip = Str ''T''\<rparr>])
     \<and> heap w2 1 = Some (WeatherDF [\<lparr>city = ''A'', month = 1, avg_temp = Some 50,
                                      avg_humidity = Some 60, precip = Num 0\<rparr>])"
proof -
  let ?rs = "[\<lparr>city = ''A'', month = 1, avg_temp = Some 50,
               avg_humidity = Some 60, precip = Str ''T''\<rparr>]"
  let ?w = "\<lparr>heap = [0 \<mapsto> WeatherDF ?rs], nxt = 1, dirs = {''out''},
             csvs = Map.empty, pngs = Map.empty\<rparr>"
  have d1: "os_path_dirname (os_path_join ''out'' ''weather_heatmap.png'') = ''out''"
    by (rule dirname_join) (simp_all add: is_sep_def)
  have d2: "os_path_dirname (os_path_join ''out'' ''weather_scatter.png'') = ''out''"
    by (rule dirname_join) (simp_all add: is_sep_def)
  obtain M where M: "pivot_table ?rs = Inr M"
    using pivot_table_eq [of ?rs] by blast
  define w1 where "w1 = ?w\<lparr>pngs := (pngs ?w)(os_path_join ''out'' ''weather_heatmap.png'' \<mapsto>
                           WeatherHeatmap M)\<rparr>"
  have h1: "plot_weather_heatmap 0 ''out'' ?w = Inr (os_path_join ''out'' ''weather_heatmap.png'', w1)"
    unfolding w1_def by (rule plot_weather_heatmap_ok [OF _ M]) (simp_all add: d1)
  have col: "precip_filled Map.empty ?rs = Inr [0]"
    by (simp add: precip_filled_def to_numeric_cell_def fillna_def)
  define w2 where "w2 = w1\<lparr>heap := (heap w1)(nxt w1 \<mapsto>
             WeatherDF (map (\<lambda>(r, v). r\<lparr>precip := Num v\<rparr>) (zip ?rs [0]))),
           nxt := Suc (nxt w1),
           pngs := (pngs w1)(os_path_join ''out'' ''weather_scatter.png'' \<mapsto>
                     Scatter (scatter_points ?rs [0]) (size_handles (max_precip [0])))\<rparr>"
  have h2: "plot_weather_scatter Map.empty 0 ''out'' w1
      = Inr (os_path_join ''out'' ''weather_scatter.png'', w2)"
    unfolding w2_def
    by (rule plot_weather_scatter_ok [OF _ col])
       (simp_all add: w1_def d2 sizes_finite_def float_max_def)
  have "heap w1 = heap ?w"
    using renderers_keep_input [of 0 "''out''" ?w "os_path_join ''out'' ''weather_heatmap.png''" w1] h1 by blast
  moreover have "heap w2 0 = heap w1 0"
    using renderers_keep_input [of 0 "''out''" w1 "os_path_join ''out'' ''weather_scatter.png''" w2 Map.empty] h2
    by (simp add: w1_def)
  ultimately have a: "heap w2 0 = Some (WeatherDF ?rs)" by simp
  have b: "heap w2 1 = Some (WeatherDF [\<lparr>city = ''A'', month = 1, avg_temp = Some 50,
                                      avg_humidity = Some 60, precip = Num 0\<rparr>])"
    by (simp add: w2_def w1_def)
  from h1 h2 a b show ?thesis by blast
qed

end
